theory Spec2Isabelle
  imports Complex_Main "HOL-Library.Word"
begin

section \<open>Montelight: a ray caster for spheres\<close>

text \<open>
  The program is one C++ file, \<^verbatim>\<open>montelight.cc\<close>. Its \<^verbatim>\<open>double\<close> values are
  read here as real numbers. In the geometry (vectors, intersection, camera rays) \<open>+\<close>,
  \<open>-\<close>, \<open>*\<close>, \<open>/\<close> and \<open>sqrt\<close> are the exact operations, with no rounding, no
  infinities and no NaN; where the C++ would divide by zero the model returns \<open>None\<close>
  instead of a number. The product \<^verbatim>\<open>pixels[i].x * 255\<close> of \<^verbatim>\<open>save\<close> is rounded as
  double precision rounds it, because the integer written to the file depends on that
  rounding. The two single-precision literals \<^verbatim>\<open>0.01f\<close> and \<^verbatim>\<open>1e20f\<close> are given
  their exact binary values. The \<^verbatim>\<open>unsigned int\<close> fields of the image are 32-bit
  words.
\<close>

subsection \<open>Vector\<close>

text \<open>
  \<^verbatim>\<open>struct Vector { double x, y, z; ... }\<close>; the fields are called \<open>vx\<close>, \<open>vy\<close>,
  \<open>vz\<close> here. \<^verbatim>\<open>Vector()\<close> is the zero vector (all three defaults are 0).
\<close>

datatype Vector = Vector (vx: real) (vy: real) (vz: real)

definition Vector0 :: Vector where
  "Vector0 = Vector 0 0 0"

fun vadd :: "Vector \<Rightarrow> Vector \<Rightarrow> Vector" where
  "vadd (Vector x y z) (Vector ox oy oz) = Vector (x + ox) (y + oy) (z + oz)"

fun vsub :: "Vector \<Rightarrow> Vector \<Rightarrow> Vector" where
  "vsub (Vector x y z) (Vector ox oy oz) = Vector (x - ox) (y - oy) (z - oz)"

fun vscale :: "Vector \<Rightarrow> real \<Rightarrow> Vector" where
  "vscale (Vector x y z) o' = Vector (x * o') (y * o') (z * o')"

fun dot :: "Vector \<Rightarrow> Vector \<Rightarrow> real" where
  "dot (Vector x y z) (Vector ox oy oz) = x * ox + y * oy + z * oz"

fun cross :: "Vector \<Rightarrow> Vector \<Rightarrow> Vector" where
  "cross (Vector x y z) (Vector ox oy oz) =
     Vector (y * oz - z * oy) (z * ox - x * oz) (x * oy - y * ox)"

text \<open>
  \<^verbatim>\<open>norm()\<close> scales the vector by \<open>1 / sqrt (x\<^sup>2 + y\<^sup>2 + z\<^sup>2)\<close>, in place, and returns
  it. For the zero vector the C++ divides by zero; the model returns \<open>None\<close> there.
\<close>

fun norm_v :: "Vector \<Rightarrow> Vector option" where
  "norm_v (Vector x y z) =
     (if sqrt (x * x + y * y + z * z) = 0 then None
      else Some (vscale (Vector x y z) (1 / sqrt (x * x + y * y + z * z))))"

subsection \<open>Ray\<close>

datatype Ray = Ray (origin: Vector) (direction: Vector)

subsection \<open>Shapes\<close>

text \<open>
  \<^verbatim>\<open>struct Shape\<close> holds a color and its \<^verbatim>\<open>intersects\<close> returns 0.
  \<^verbatim>\<open>struct Sphere : Shape\<close> adds a center and a radius and overrides \<^verbatim>\<open>intersects\<close>.
  The constructor of \<open>Sphere\<close> passes its color to the \<open>Shape\<close> base; the member
  \<^verbatim>\<open>Sphere::color\<close> that shadows it is never set and never read through a \<^verbatim>\<open>Shape *\<close>,
  so the model keeps the base color only. The arguments of \<open>Sphere\<close> are in the
  constructor's order: center, radius, color.
\<close>

datatype Shape = Shape Vector | Sphere Vector real Vector

fun color :: "Shape \<Rightarrow> Vector" where
  "color (Shape col) = col"
| "color (Sphere center radius col) = col"

text \<open>\<^verbatim>\<open>#define EPSILON 0.01f\<close>: the single-precision number nearest to 0.01.\<close>

definition EPSILON :: real where
  "EPSILON = 10737418 / 2 ^ 30"

fun intersects :: "Shape \<Rightarrow> Ray \<Rightarrow> real" where
  "intersects (Shape col) r = 0"
| "intersects (Sphere center radius col) r =
     (let offset = vsub (origin r) center;
          a = dot (direction r) (direction r);
          b = 2 * dot offset (direction r);
          c = dot offset offset - radius * radius;
          disc = b * b - 4 * a * c
      in if disc < 0 then 0
         else if - b - sqrt disc > EPSILON then - b - sqrt disc
         else if - b + sqrt disc > EPSILON then - b + sqrt disc
         else 0)"

subsection \<open>Nearest hit\<close>

text \<open>
  The inner loop of \<^verbatim>\<open>main\<close> (lines 142 to 150). Its state is the pair of the local
  variables \<^verbatim>\<open>color\<close> and \<^verbatim>\<open>closest\<close>; \<open>scan\<close> is the loop over the scene and
  \<open>resolve\<close> runs it from the initial state \<^verbatim>\<open>Vector color; double closest = 1e20f;\<close>.
  \<open>CLOSEST0\<close> is the exact value of the single-precision literal \<^verbatim>\<open>1e20f\<close>.
\<close>

definition CLOSEST0 :: real where
  "CLOSEST0 = 100000002004087734272"

fun scan :: "Ray \<Rightarrow> Shape list \<Rightarrow> Vector \<times> real \<Rightarrow> Vector \<times> real" where
  "scan ray [] st = st"
| "scan ray (obj # objs) (col, closest) =
     (let hit = intersects obj ray
      in if hit > 0 \<and> hit < closest then scan ray objs (color obj, hit)
         else scan ray objs (col, closest))"

definition resolve :: "Shape list \<Rightarrow> Ray \<Rightarrow> Vector" where
  "resolve scene ray = fst (scan ray scene (Vector0, CLOSEST0))"

subsection \<open>Camera rays\<close>

text \<open>
  Lines 139 and 140 of \<^verbatim>\<open>main\<close>:
  \<^verbatim>\<open>Vector d = (cx * ((x / float(w)) - 0.5)) + (cy * ((y / float(h)) - 0.5)) + camera.direction;\<close>
  \<^verbatim>\<open>Ray ray = Ray(camera.origin + d * 140, d.norm());\<close>
  \<open>camera_d\<close> is the first line. A zero \<open>w\<close> or \<open>h\<close> is a division by zero in the
  C++ and \<open>None\<close> here.

  In the second line \<^verbatim>\<open>d.norm()\<close> overwrites \<open>d\<close>, and the other argument of the
  constructor reads \<open>d\<close>. C++ does not fix the order in which the two arguments of a call
  are evaluated, so the value of \<open>d\<close> that \<^verbatim>\<open>d * 140\<close> reads depends on the
  compiler. The model takes the order as a parameter: with \<open>FirstArgFirst\<close> the origin
  is computed before \<open>d\<close> is normalized, with \<open>SecondArgFirst\<close> after. The second
  parameter of the constructor is a reference to \<open>d\<close>, read when the constructor body
  runs, so the direction is the normalized \<open>d\<close> in both orders.
\<close>

datatype ArgOrder = FirstArgFirst | SecondArgFirst

definition camera_d :: "Ray \<Rightarrow> Vector \<Rightarrow> Vector \<Rightarrow> int \<Rightarrow> int \<Rightarrow> int \<Rightarrow> int \<Rightarrow> Vector option" where
  "camera_d camera cx cy w h x y =
     (if w = 0 \<or> h = 0 then None
      else Some (vadd (vadd (vscale cx (real_of_int x / real_of_int w - 0.5))
                            (vscale cy (real_of_int y / real_of_int h - 0.5)))
                      (direction camera)))"

definition camera_ray ::
  "ArgOrder \<Rightarrow> Ray \<Rightarrow> Vector \<Rightarrow> Vector \<Rightarrow> int \<Rightarrow> int \<Rightarrow> int \<Rightarrow> int \<Rightarrow> Ray option" where
  "camera_ray ord camera cx cy w h x y =
     (case camera_d camera cx cy w h x y of
        None \<Rightarrow> None
      | Some d \<Rightarrow>
          (case norm_v d of
             None \<Rightarrow> None
           | Some dn \<Rightarrow>
               (case ord of
                  FirstArgFirst \<Rightarrow> Some (Ray (vadd (origin camera) (vscale d 140)) dn)
                | SecondArgFirst \<Rightarrow> Some (Ray (vadd (origin camera) (vscale dn 140)) dn))))"

text \<open>The color of one pixel: the camera ray, then the nearest hit.\<close>

definition pixel_color ::
  "ArgOrder \<Rightarrow> Shape list \<Rightarrow> Ray \<Rightarrow> Vector \<Rightarrow> Vector \<Rightarrow> int \<Rightarrow> int \<Rightarrow> int \<Rightarrow> int \<Rightarrow> Vector option" where
  "pixel_color ord scene camera cx cy w h x y =
     map_option (resolve scene) (camera_ray ord camera cx cy w h x y)"

text \<open>
  The camera of \<^verbatim>\<open>main\<close> (lines 128 to 132), for its 256 by 256 image:
  \<^verbatim>\<open>Ray camera = Ray(Vector(50, 52, 295.6), Vector(0, -0.042612, -1).norm());\<close>
  \<^verbatim>\<open>Vector cx = Vector((w * 0.5135) / h, 0, 0);\<close>
  \<^verbatim>\<open>Vector cy = (cx.cross(camera.direction)).norm() * 0.5135;\<close>
  and \<open>main_ray\<close>, the ray \<^verbatim>\<open>main\<close> builds for the pixel \<open>(x, y)\<close>.
\<close>

definition main_camera :: "Ray option" where
  "main_camera =
     (case norm_v (Vector 0 (- 0.042612) (- 1)) of
        None \<Rightarrow> None
      | Some dir \<Rightarrow> Some (Ray (Vector 50 52 295.6) dir))"

definition main_cx :: Vector where
  "main_cx = Vector ((256 * 0.5135) / 256) 0 0"

definition main_cy :: "Vector option" where
  "main_cy =
     (case main_camera of
        None \<Rightarrow> None
      | Some camera \<Rightarrow>
          (case norm_v (cross main_cx (direction camera)) of
             None \<Rightarrow> None
           | Some n \<Rightarrow> Some (vscale n 0.5135)))"

definition main_ray :: "ArgOrder \<Rightarrow> int \<Rightarrow> int \<Rightarrow> Ray option" where
  "main_ray ord x y =
     (case main_camera of
        None \<Rightarrow> None
      | Some camera \<Rightarrow>
          (case main_cy of
             None \<Rightarrow> None
           | Some cy \<Rightarrow> camera_ray ord camera main_cx cy 256 256 x y))"

subsection \<open>Image\<close>

text \<open>
  \<^verbatim>\<open>struct Image { unsigned int width, height; Vector *pixels; ... }\<close>. The buffer is a
  list; the constructor allocates \<^verbatim>\<open>new Vector[width * height]\<close>, the product taken in
  32 bits, and every element starts as \<^verbatim>\<open>Vector()\<close>. A read or write outside the
  buffer is undefined in C++; here it is the error \<open>OutOfBounds\<close>.
\<close>

datatype Error = OutOfBounds | NotRepresentable | IntOverflow

record Image =
  width :: "32 word"
  height :: "32 word"
  pixels :: "Vector list"

definition new_Image :: "32 word \<Rightarrow> 32 word \<Rightarrow> Image" where
  "new_Image w h = \<lparr>width = w, height = h, pixels = replicate (unat (w * h)) Vector0\<rparr>"

definition setPixel :: "Image \<Rightarrow> 32 word \<Rightarrow> 32 word \<Rightarrow> Vector \<Rightarrow> Error + Image" where
  "setPixel img x y v =
     (let i = unat ((height img - y) * width img + x)
      in if i < length (pixels img) then Inr (img\<lparr>pixels := (pixels img)[i := v]\<rparr>)
         else Inl OutOfBounds)"

subsection \<open>Writing the image\<close>

text \<open>
  \<^verbatim>\<open>unsigned int r = pixels[i].x * 255\<close> first multiplies two doubles. The result of
  a double-precision operation is the exact result rounded to the nearest double, a tie
  going to the double with the even significand. \<open>round_double\<close> is that rounding: a
  number whose binary exponent is \<open>e\<close> (at least \<open>-1022\<close>, the exponent of the subnormal
  numbers) is rounded to a multiple of \<open>2\<^sup>e\<^sup>-\<^sup>5\<^sup>2\<close>. Overflow to infinity is not
  modelled; a product that large is rejected by the conversion below in any case.
\<close>

definition round_even :: "real \<Rightarrow> int" where
  "round_even r =
     (if r - of_int \<lfloor>r\<rfloor> < 1 / 2 then \<lfloor>r\<rfloor>
      else if 1 / 2 < r - of_int \<lfloor>r\<rfloor> then \<lfloor>r\<rfloor> + 1
      else if even \<lfloor>r\<rfloor> then \<lfloor>r\<rfloor> else \<lfloor>r\<rfloor> + 1)"

definition double_exponent :: "real \<Rightarrow> int" where
  "double_exponent x = max \<lfloor>log 2 \<bar>x\<bar>\<rfloor> (- 1022)"

definition round_double :: "real \<Rightarrow> real" where
  "round_double x =
     (if x = 0 then 0
      else of_int (round_even (x / 2 powi (double_exponent x - 52)))
           * 2 powi (double_exponent x - 52))"

text \<open>
  The product is then converted from \<open>double\<close> to \<open>unsigned int\<close>: the fraction is
  dropped, and the conversion is undefined when the result does not fit.
\<close>

definition to_uint :: "real \<Rightarrow> Error + nat" where
  "to_uint v = (if - 1 < v \<and> v < 2 ^ 32 then Inr (nat \<lfloor>v\<rfloor>) else Inl NotRepresentable)"

text \<open>What \<^verbatim>\<open>f << n\<close> prints for an unsigned number: its decimal digits.\<close>

definition digit :: "nat \<Rightarrow> char" where
  "digit d = char_of (48 + d)"

function show_nat :: "nat \<Rightarrow> string" where
  "show_nat n = (if n < 10 then [digit n] else show_nat (n div 10) @ [digit (n mod 10)])"
  by pat_completeness auto
termination
  by (relation "measure id") auto

declare show_nat.simps [simp del]

definition endl :: string where
  "endl = [CHR 0x0A]"

definition pixel_line :: "Vector \<Rightarrow> Error + string" where
  "pixel_line p =
     (case to_uint (round_double (vx p * 255)) of
        Inl e \<Rightarrow> Inl e
      | Inr r \<Rightarrow>
          (case to_uint (round_double (vy p * 255)) of
             Inl e \<Rightarrow> Inl e
           | Inr g \<Rightarrow>
               (case to_uint (round_double (vz p * 255)) of
                  Inl e \<Rightarrow> Inl e
                | Inr b \<Rightarrow> Inr (show_nat r @ '' '' @ show_nat g @ '' '' @ show_nat b @ endl))))"

text \<open>
  The loop \<^verbatim>\<open>for (int i=0; i < width * height; i++)\<close> of \<^verbatim>\<open>save\<close>, from index \<open>i\<close>
  on. The counter is a signed 32-bit \<open>int\<close>, whose increment past \<open>2\<^sup>3\<^sup>1 - 1\<close> is
  undefined.
\<close>

function save_loop :: "Image \<Rightarrow> nat \<Rightarrow> Error + string" where
  "save_loop img i =
     (if i < unat (width img * height img) then
        (if length (pixels img) \<le> i then Inl OutOfBounds
         else case pixel_line (pixels img ! i) of
                Inl e \<Rightarrow> Inl e
              | Inr l \<Rightarrow>
                  (if 2 ^ 31 \<le> i + 1 then Inl IntOverflow
                   else case save_loop img (i + 1) of
                          Inl e \<Rightarrow> Inl e
                        | Inr rest \<Rightarrow> Inr (l @ rest)))
      else Inr [])"
  by pat_completeness auto
termination
  by (relation "measure (\<lambda>(img, i). unat (width img * height img) - i)") auto

declare save_loop.simps [simp del]

text \<open>
  \<^verbatim>\<open>save\<close>: the text written to the file. Opening the file is not modelled.
\<close>

definition save :: "Image \<Rightarrow> Error + string" where
  "save img =
     (case save_loop img 0 of
        Inl e \<Rightarrow> Inl e
      | Inr body \<Rightarrow>
          Inr (''P3 '' @ show_nat (unat (width img)) @ '' '' @ show_nat (unat (height img))
               @ '' '' @ show_nat 255 @ endl @ body))"

subsection \<open>Reading the file back\<close>

text \<open>
  The program has no reader. To state the round trip of the written file, this is a
  reader of the plain PPM format: tokens separated by spaces and line ends, the tag
  \<open>P3\<close>, the width, the height, the maximum value, then three numbers for each pixel.
\<close>

definition is_space :: "char \<Rightarrow> bool" where
  "is_space c = (c = CHR '' '' \<or> c = CHR 0x0A)"

function tokens :: "string \<Rightarrow> string list" where
  "tokens [] = []"
| "tokens (c # cs) =
     (if is_space c then tokens cs
      else takeWhile (\<lambda>k. \<not> is_space k) (c # cs)
           # tokens (dropWhile (\<lambda>k. \<not> is_space k) (c # cs)))"
  by pat_completeness auto
termination
  by (relation "measure length") (auto simp: length_dropWhile_le less_Suc_eq_le)

definition is_digit :: "char \<Rightarrow> bool" where
  "is_digit c = (48 \<le> (of_char c :: nat) \<and> (of_char c :: nat) \<le> 57)"

definition read_nat :: "string \<Rightarrow> nat option" where
  "read_nat s =
     (if s = [] \<or> \<not> list_all is_digit s then None
      else Some (foldl (\<lambda>a c. 10 * a + (of_char c - 48)) 0 s))"

fun read_all :: "string list \<Rightarrow> nat list option" where
  "read_all [] = Some []"
| "read_all (t # ts) =
     (case read_nat t of
        None \<Rightarrow> None
      | Some n \<Rightarrow> (case read_all ts of None \<Rightarrow> None | Some ns \<Rightarrow> Some (n # ns)))"

fun triples :: "nat list \<Rightarrow> (nat \<times> nat \<times> nat) list option" where
  "triples [] = Some []"
| "triples (r # g # b # rest) =
     (case triples rest of None \<Rightarrow> None | Some ps \<Rightarrow> Some ((r, g, b) # ps))"
| "triples _ = None"

record ppm =
  ppm_width :: nat
  ppm_height :: nat
  ppm_max :: nat
  ppm_pixels :: "(nat \<times> nat \<times> nat) list"

definition parse_ppm :: "string \<Rightarrow> ppm option" where
  "parse_ppm txt =
     (case tokens txt of
        tag # w # h # m # rest \<Rightarrow>
          (if tag \<noteq> ''P3'' then None
           else case (read_nat w, read_nat h, read_nat m, read_all rest) of
                  (Some w', Some h', Some m', Some vals) \<Rightarrow>
                    (case triples vals of
                       None \<Rightarrow> None
                     | Some ps \<Rightarrow>
                         (if length ps = w' * h'
                          then Some \<lparr>ppm_width = w', ppm_height = h', ppm_max = m', ppm_pixels = ps\<rparr>
                          else None))
                | _ \<Rightarrow> None)
      | _ \<Rightarrow> None)"

text \<open>
  The integers the written file should hold for a pixel, in the words of the
  specification: each channel scaled by 255 and truncated, the scaling being the
  double-precision product. \<open>unit_range\<close> says that the three channels lie in
  \<open>[0, 1]\<close>, and \<open>line_of\<close> is the line of text for three integers.
\<close>

definition quantize :: "Vector \<Rightarrow> nat \<times> nat \<times> nat" where
  "quantize p =
     (nat \<lfloor>round_double (vx p * 255)\<rfloor>,
      nat \<lfloor>round_double (vy p * 255)\<rfloor>,
      nat \<lfloor>round_double (vz p * 255)\<rfloor>)"

definition unit_range :: "Vector \<Rightarrow> bool" where
  "unit_range p = (0 \<le> vx p \<and> vx p \<le> 1 \<and> 0 \<le> vy p \<and> vy p \<le> 1 \<and> 0 \<le> vz p \<and> vz p \<le> 1)"

fun line_of :: "nat \<times> nat \<times> nat \<Rightarrow> string" where
  "line_of (r, g, b) = show_nat r @ '' '' @ show_nat g @ '' '' @ show_nat b @ endl"

section \<open>Properties\<close>

subsection \<open>Shapes that report no hit\<close>

lemma scan_no_hit:
  "\<forall>s \<in> set objs. intersects s ray = 0 \<Longrightarrow> scan ray objs st = st"
  by (induction objs arbitrary: st) (auto simp: Let_def)

lemma scan_append:
  "scan ray (xs @ ys) st = scan ray ys (scan ray xs st)"
  by (induction xs arbitrary: st) (auto simp: Let_def)

text \<open>
  Claim C7. A ray for which every shape of the scene reports 0 gets the background
  color: the zero vector, which is the initial value of \<^verbatim>\<open>color\<close>.
\<close>

theorem resolve_no_hit_background:
  assumes "\<forall>s \<in> set scene. intersects s ray = 0"
  shows "resolve scene ray = Vector 0 0 0"
  using scan_no_hit [OF assms] by (simp add: resolve_def Vector0_def)

theorem resolve_no_hit_background_witness:
  "intersects (Shape (Vector 1 0 0)) (Ray (Vector 0 0 0) (Vector 0 0 1)) = 0
   \<and> intersects (Sphere (Vector 0 5 0) 1 (Vector 0 1 0)) (Ray (Vector 0 0 0) (Vector 0 0 1)) = 0
   \<and> resolve [Shape (Vector 1 0 0), Sphere (Vector 0 5 0) 1 (Vector 0 1 0)]
        (Ray (Vector 0 0 0) (Vector 0 0 1)) = Vector 0 0 0"
proof -
  have h: "\<forall>s \<in> set [Shape (Vector 1 0 0), Sphere (Vector 0 5 0) 1 (Vector 0 1 0)].
      intersects s (Ray (Vector 0 0 0) (Vector 0 0 1)) = 0"
    by simp
  from h resolve_no_hit_background [OF h] show ?thesis by simp
qed

lemma scan_base_shape: "scan r (Shape col # objs) st = scan r objs st"
  by (cases st) simp

text \<open>
  Claim C10. The \<^verbatim>\<open>intersects\<close> of the base \<open>Shape\<close> returns 0 for every ray, so the
  loop passes over such a shape without changing its state, and the color resolved for a
  scene is the same with the shape as without it.
\<close>

theorem base_shape_never_wins:
  "intersects (Shape col) r = 0
   \<and> scan r (xs @ Shape col # ys) st = scan r (xs @ ys) st
   \<and> resolve (xs @ Shape col # ys) r = resolve (xs @ ys) r"
  by (simp add: resolve_def scan_append scan_base_shape)

subsection \<open>The distance reported by a sphere\<close>

text \<open>
  What a sphere reports for a ray aimed at its center: with \<open>D\<close> the distance from the
  origin of the ray to the center, and a unit direction towards the center, the value
  returned is \<open>2 * (D - radius)\<close> whenever that is above \<open>EPSILON\<close>: twice the distance
  to the nearest surface point.
\<close>

lemma intersects_towards_center:
  fixes center org :: Vector and radius :: real
  defines "D \<equiv> sqrt (dot (vsub center org) (vsub center org))"
  assumes far: "0 < D" and rad: "0 \<le> radius" and above: "EPSILON < 2 * (D - radius)"
  shows "intersects (Sphere center radius col) (Ray org (vscale (vsub center org) (1 / D)))
           = 2 * (D - radius)"
proof -
  obtain cx cy cz where c: "center = Vector cx cy cz" by (cases center)
  obtain ox oy oz where o: "org = Vector ox oy oz" by (cases org)
  define ux uy uz where "ux = cx - ox" and "uy = cy - oy" and "uz = cz - oz"
  define S where "S = ux * ux + uy * uy + uz * uz"
  have u: "vsub center org = Vector ux uy uz"
    and u': "vsub org center = Vector (- ux) (- uy) (- uz)"
    by (simp_all add: c o ux_def uy_def uz_def)
  have S0: "0 \<le> S" by (simp add: S_def)
  have D: "D = sqrt S" by (simp add: D_def u S_def)
  have DD: "D * D = S" using S0 by (simp add: D)
  have Dne: "D \<noteq> 0" using far by simp
  have a: "dot (vscale (vsub center org) (1 / D)) (vscale (vsub center org) (1 / D)) = 1"
  proof -
    have "dot (vscale (vsub center org) (1 / D)) (vscale (vsub center org) (1 / D))
            = S / (D * D)"
      unfolding u S_def using Dne by (simp add: field_simps)
    also have "\<dots> = 1" using Dne by (simp add: DD [symmetric])
    finally show ?thesis .
  qed
  have b: "dot (vsub org center) (vscale (vsub center org) (1 / D)) = - D"
  proof -
    have "dot (vsub org center) (vscale (vsub center org) (1 / D)) = - S / D"
      unfolding u u' S_def using Dne by (simp add: field_simps)
    also have "\<dots> = - (D * D) / D" by (simp add: DD)
    also have "\<dots> = - D" using Dne by simp
    finally show ?thesis .
  qed
  have cc: "dot (vsub org center) (vsub org center) = D * D"
    unfolding DD u' S_def by simp
  have disc: "2 * (- D) * (2 * (- D)) - 4 * 1 * (D * D - radius * radius) = 4 * (radius * radius)"
    by (simp add: algebra_simps)
  have root: "sqrt (4 * (radius * radius)) = 2 * radius"
    using rad by (simp add: real_sqrt_mult)
  show ?thesis
    using above rad
    by (simp only: intersects.simps Let_def Ray.sel a b cc disc root) simp
qed

text \<open>
  Claim C1, at one input. The sphere has center \<open>(0, 0, 0)\<close> and radius 1; the ray starts
  at \<open>(0, 0, 3)\<close>, outside the sphere, and its direction \<open>(0, 0, -1)\<close> is the unit vector
  towards the center. The distance to the center is 3, so the nearest surface point is at
  distance \<open>3 - 1 = 2\<close>. \<^verbatim>\<open>intersects\<close> returns 4: it returns \<open>- b - sqrt disc\<close> without
  the division by \<open>2 * a\<close> of the quadratic formula. Every number of this computation is a
  small integer, exact in double precision.
\<close>

theorem intersects_reports_twice_distance:
  "intersects (Sphere (Vector 0 0 0) 1 col) (Ray (Vector 0 0 3) (Vector 0 0 (- 1))) = 4"
  by (simp add: EPSILON_def)

lemma EPSILON_pos: "0 < EPSILON"
  by (simp add: EPSILON_def)

lemma intersects_zero_or_above: "intersects s r = 0 \<or> EPSILON < intersects s r"
  by (cases s) (simp_all add: Let_def)

text \<open>
  Claim C3, as stated, at one input. The ray starts at the center of a sphere of radius
  \<open>85899345 / 2\<^sup>3\<^sup>4\<close>. The first candidate is negative; the second is
  \<open>85899345 / 2\<^sup>3\<^sup>3\<close>, about 0.0099999999, which is not above 0.01 but is above
  \<^verbatim>\<open>0.01f\<close>, and is returned: a result inside \<open>(0, 0.01]\<close>. The radius, its square and
  the result are exact in double precision.
\<close>

theorem intersects_below_one_hundredth:
  "intersects (Sphere (Vector 0 0 0) (85899345 / 2 ^ 34) (Vector 1 1 1))
     (Ray (Vector 0 0 0) (Vector 0 0 1)) = 85899345 / 2 ^ 33
   \<and> (0::real) < 85899345 / 2 ^ 33 \<and> (85899345 / 2 ^ 33 :: real) \<le> 1 / 100"
proof -
  have "sqrt (4 * (85899345 / 2 ^ 34 * (85899345 / 2 ^ 34))) = 85899345 / 2 ^ 33"
    by (rule real_sqrt_unique) (simp_all add: power2_eq_square)
  then show ?thesis by (simp add: EPSILON_def)
qed

text \<open>
  Claim C3, amended: the threshold is \<open>EPSILON\<close>, the single-precision constant
  \<^verbatim>\<open>0.01f\<close> \<open>= 10737418 / 2\<^sup>3\<^sup>0\<close>, a little below 0.01. With \<open>disc = b\<^sup>2 - 4ac\<close>,
  \<open>t1 = - b - sqrt disc\<close> and \<open>t2 = - b + sqrt disc\<close>, a sphere returns 0 when \<open>disc\<close> is
  negative, and otherwise \<open>t1\<close> if \<open>t1 > EPSILON\<close>, else \<open>t2\<close> if \<open>t2 > EPSILON\<close>, else 0.
  The result is 0 or above \<open>EPSILON\<close>: never negative, never in \<open>(0, EPSILON]\<close>.
\<close>

theorem intersects_root_selection:
  fixes center :: Vector and radius :: real and col :: Vector and r :: Ray
  defines "offset \<equiv> vsub (origin r) center"
  defines "a \<equiv> dot (direction r) (direction r)"
  defines "b \<equiv> 2 * dot offset (direction r)"
  defines "c \<equiv> dot offset offset - radius * radius"
  defines "disc \<equiv> b * b - 4 * a * c"
  defines "t1 \<equiv> - b - sqrt disc"
  defines "t2 \<equiv> - b + sqrt disc"
  defines "res \<equiv> intersects (Sphere center radius col) r"
  shows "(disc < 0 \<longrightarrow> res = 0)
       \<and> (\<not> disc < 0 \<longrightarrow> res = (if t1 > EPSILON then t1 else if t2 > EPSILON then t2 else 0))
       \<and> (res = 0 \<or> res > EPSILON)
       \<and> EPSILON = 10737418 / 2 ^ 30 \<and> 0 < EPSILON \<and> EPSILON < 1 / 100"
proof -
  have "res = 0 \<or> res > EPSILON"
    unfolding res_def using intersects_zero_or_above by blast
  moreover have "disc < 0 \<longrightarrow> res = 0"
    unfolding res_def disc_def c_def b_def a_def offset_def by (simp add: Let_def)
  moreover have "\<not> disc < 0 \<longrightarrow> res = (if t1 > EPSILON then t1 else if t2 > EPSILON then t2 else 0)"
    unfolding res_def t1_def t2_def disc_def c_def b_def a_def offset_def by (simp add: Let_def)
  moreover have "EPSILON = 10737418 / 2 ^ 30 \<and> 0 < EPSILON \<and> EPSILON < 1 / 100"
    by (simp add: EPSILON_def)
  ultimately show ?thesis by blast
qed

theorem intersects_root_selection_witness:
  "\<not> (2 * dot (vsub (Vector 0 0 0) (Vector 0 0 0)) (Vector 0 0 1)
        * (2 * dot (vsub (Vector 0 0 0) (Vector 0 0 0)) (Vector 0 0 1))
      - 4 * dot (Vector 0 0 1) (Vector 0 0 1)
        * (dot (vsub (Vector 0 0 0) (Vector 0 0 0)) (vsub (Vector 0 0 0) (Vector 0 0 0)) - 1 * 1) < 0)
   \<and> intersects (Sphere (Vector 0 0 0) 1 (Vector 1 1 1)) (Ray (Vector 0 0 0) (Vector 0 0 1)) = 2
   \<and> EPSILON < 2"
  using intersects_root_selection
    [where r = "Ray (Vector 0 0 0) (Vector 0 0 1)" and center = "Vector 0 0 0" and radius = 1
       and col = "Vector 1 1 1"]
  by (simp add: EPSILON_def)

subsection \<open>The nearest hit\<close>

lemma scan_result:
  "scan ray objs (c0, m0) = (c, m) \<Longrightarrow>
     (c = c0 \<and> m = m0 \<and> (\<forall>s \<in> set objs. \<not> (0 < intersects s ray \<and> intersects s ray < m0)))
   \<or> (\<exists>i < length objs.
         c = color (objs ! i) \<and> m = intersects (objs ! i) ray \<and> 0 < m \<and> m < m0
       \<and> (\<forall>j < length objs. 0 < intersects (objs ! j) ray \<longrightarrow> m \<le> intersects (objs ! j) ray)
       \<and> (\<forall>j < i. 0 < intersects (objs ! j) ray \<longrightarrow> m < intersects (objs ! j) ray))"
proof (induction objs arbitrary: c0 m0)
  case Nil
  then show ?case by simp
next
  case (Cons obj objs)
  let ?h = "intersects obj ray"
  show ?case
  proof (cases "0 < ?h \<and> ?h < m0")
    case True
    with Cons.prems have run: "scan ray objs (color obj, ?h) = (c, m)"
      by (simp add: Let_def)
    from Cons.IH [OF run] show ?thesis
    proof (elim disjE exE conjE)
      assume "c = color obj" "m = ?h"
        and none: "\<forall>s \<in> set objs. \<not> (0 < intersects s ray \<and> intersects s ray < ?h)"
      have "\<forall>j < length (obj # objs). 0 < intersects ((obj # objs) ! j) ray
              \<longrightarrow> m \<le> intersects ((obj # objs) ! j) ray"
      proof (intro allI impI)
        fix j assume "j < length (obj # objs)" "0 < intersects ((obj # objs) ! j) ray"
        then show "m \<le> intersects ((obj # objs) ! j) ray"
          using none \<open>m = ?h\<close> by (cases j) (force simp: not_less all_set_conv_all_nth)+
      qed
      with True \<open>c = color obj\<close> \<open>m = ?h\<close> show ?thesis
        by (intro disjI2 exI [of _ 0]) simp
    next
      fix i
      assume i: "i < length objs" "c = color (objs ! i)" "m = intersects (objs ! i) ray"
        "0 < m" "m < ?h"
        and le: "\<forall>j < length objs. 0 < intersects (objs ! j) ray \<longrightarrow> m \<le> intersects (objs ! j) ray"
        and lt: "\<forall>j < i. 0 < intersects (objs ! j) ray \<longrightarrow> m < intersects (objs ! j) ray"
      have a: "\<forall>j < length (obj # objs). 0 < intersects ((obj # objs) ! j) ray
              \<longrightarrow> m \<le> intersects ((obj # objs) ! j) ray"
      proof (intro allI impI)
        fix j assume "j < length (obj # objs)" "0 < intersects ((obj # objs) ! j) ray"
        then show "m \<le> intersects ((obj # objs) ! j) ray"
          using le \<open>m < ?h\<close> by (cases j) auto
      qed
      have b: "\<forall>j < Suc i. 0 < intersects ((obj # objs) ! j) ray
              \<longrightarrow> m < intersects ((obj # objs) ! j) ray"
      proof (intro allI impI)
        fix j assume "j < Suc i" "0 < intersects ((obj # objs) ! j) ray"
        then show "m < intersects ((obj # objs) ! j) ray"
          using lt \<open>m < ?h\<close> by (cases j) auto
      qed
      from i a b True show ?thesis
        by (intro disjI2 exI [of _ "Suc i"]) simp
    qed
  next
    case False
    with Cons.prems have run: "scan ray objs (c0, m0) = (c, m)"
      by (simp add: Let_def)
    from Cons.IH [OF run] show ?thesis
    proof (elim disjE exE conjE)
      assume "c = c0" "m = m0"
        and "\<forall>s \<in> set objs. \<not> (0 < intersects s ray \<and> intersects s ray < m0)"
      with False show ?thesis by simp
    next
      fix i
      assume i: "i < length objs" "c = color (objs ! i)" "m = intersects (objs ! i) ray"
        "0 < m" "m < m0"
        and le: "\<forall>j < length objs. 0 < intersects (objs ! j) ray \<longrightarrow> m \<le> intersects (objs ! j) ray"
        and lt: "\<forall>j < i. 0 < intersects (objs ! j) ray \<longrightarrow> m < intersects (objs ! j) ray"
      have b: "\<forall>j < Suc i. 0 < intersects ((obj # objs) ! j) ray
              \<longrightarrow> m < intersects ((obj # objs) ! j) ray"
      proof (intro allI impI)
        fix j assume "j < Suc i" "0 < intersects ((obj # objs) ! j) ray"
        then show "m < intersects ((obj # objs) ! j) ray"
          using lt \<open>m < m0\<close> False by (cases j) auto
      qed
      have a: "\<forall>j < length (obj # objs). 0 < intersects ((obj # objs) ! j) ray
              \<longrightarrow> m \<le> intersects ((obj # objs) ! j) ray"
      proof (intro allI impI)
        fix j assume "j < length (obj # objs)" "0 < intersects ((obj # objs) ! j) ray"
        then show "m \<le> intersects ((obj # objs) ! j) ray"
          using le \<open>m < m0\<close> False by (cases j) auto
      qed
      from i a b show ?thesis
        by (intro disjI2 exI [of _ "Suc i"]) simp
    qed
  qed
qed

text \<open>
  Claim C4, as stated, at one input. The scene is one sphere of radius \<open>2\<^sup>6\<^sup>7\<close> and the
  ray starts at its center. The sphere reports the positive distance \<open>2\<^sup>6\<^sup>8\<close>, the
  smallest (and only) one of the scene, but that is not below the initial value
  \<^verbatim>\<open>1e20f\<close> of \<^verbatim>\<open>closest\<close>, and the resolved color is the background, not the
  color of the sphere.
\<close>

theorem resolve_beyond_CLOSEST0:
  "0 < intersects (Sphere (Vector 0 0 0) (2 ^ 67) (Vector 1 1 1)) (Ray (Vector 0 0 0) (Vector 0 0 1))
   \<and> resolve [Sphere (Vector 0 0 0) (2 ^ 67) (Vector 1 1 1)] (Ray (Vector 0 0 0) (Vector 0 0 1))
       = Vector 0 0 0
   \<and> color (Sphere (Vector 0 0 0) (2 ^ 67) (Vector 1 1 1)) = Vector 1 1 1"
proof -
  have "sqrt (4 * (2 ^ 67 * 2 ^ 67)) = (2 ^ 68 :: real)"
    by (rule real_sqrt_unique) (simp_all add: power2_eq_square)
  then show ?thesis by (simp add: EPSILON_def resolve_def CLOSEST0_def Vector0_def)
qed

text \<open>
  Claim C4, amended: for every ray and every scene in which some shape reports a distance
  that is positive and below \<open>CLOSEST0\<close> (the initial \<^verbatim>\<open>closest\<close>, \<^verbatim>\<open>1e20f\<close>), the
  resolver returns the color of a shape whose reported distance is the smallest positive
  one of the scene, and every shape before it in the scene order that reports a positive
  distance reports a strictly larger one: the first shape at the minimal distance wins.
\<close>

theorem resolve_nearest_hit:
  assumes "\<exists>s \<in> set scene. 0 < intersects s ray \<and> intersects s ray < CLOSEST0"
  shows "\<exists>i < length scene.
           resolve scene ray = color (scene ! i)
         \<and> 0 < intersects (scene ! i) ray
         \<and> (\<forall>j < length scene. 0 < intersects (scene ! j) ray
              \<longrightarrow> intersects (scene ! i) ray \<le> intersects (scene ! j) ray)
         \<and> (\<forall>j < i. 0 < intersects (scene ! j) ray
              \<longrightarrow> intersects (scene ! i) ray < intersects (scene ! j) ray)"
proof -
  obtain c m where run: "scan ray scene (Vector0, CLOSEST0) = (c, m)"
    by (cases "scan ray scene (Vector0, CLOSEST0)")
  from scan_result [OF run] assms obtain i where "i < length scene"
    "c = color (scene ! i)" "m = intersects (scene ! i) ray" "0 < m"
    "\<forall>j < length scene. 0 < intersects (scene ! j) ray \<longrightarrow> m \<le> intersects (scene ! j) ray"
    "\<forall>j < i. 0 < intersects (scene ! j) ray \<longrightarrow> m < intersects (scene ! j) ray"
    by blast
  with run show ?thesis
    by (intro exI [of _ i]) (simp add: resolve_def)
qed

theorem resolve_nearest_hit_witness:
  "(\<exists>s \<in> set [Sphere (Vector 0 0 21) 1 (Vector 1 0 0), Sphere (Vector 0 0 11) 1 (Vector 0 1 0)].
      0 < intersects s (Ray (Vector 0 0 0) (Vector 0 0 1))
      \<and> intersects s (Ray (Vector 0 0 0) (Vector 0 0 1)) < CLOSEST0)
   \<and> (\<exists>i < 2. resolve [Sphere (Vector 0 0 21) 1 (Vector 1 0 0), Sphere (Vector 0 0 11) 1 (Vector 0 1 0)]
                 (Ray (Vector 0 0 0) (Vector 0 0 1))
               = color ([Sphere (Vector 0 0 21) 1 (Vector 1 0 0), Sphere (Vector 0 0 11) 1 (Vector 0 1 0)] ! i))
   \<and> resolve [Sphere (Vector 0 0 21) 1 (Vector 1 0 0), Sphere (Vector 0 0 11) 1 (Vector 0 1 0)]
       (Ray (Vector 0 0 0) (Vector 0 0 1)) = Vector 0 1 0"
proof -
  let ?scene = "[Sphere (Vector 0 0 21) 1 (Vector 1 0 0), Sphere (Vector 0 0 11) 1 (Vector 0 1 0)]"
  let ?ray = "Ray (Vector 0 0 0) (Vector 0 0 1)"
  have far: "intersects (Sphere (Vector 0 0 21) 1 (Vector 1 0 0)) ?ray = 40"
    by (simp add: EPSILON_def)
  have near: "intersects (Sphere (Vector 0 0 11) 1 (Vector 0 1 0)) ?ray = 20"
    by (simp add: EPSILON_def)
  have h: "\<exists>s \<in> set ?scene. 0 < intersects s ?ray \<and> intersects s ?ray < CLOSEST0"
    using far by (simp add: CLOSEST0_def)
  from resolve_nearest_hit [OF h] obtain i where
    "i < length ?scene" "resolve ?scene ?ray = color (?scene ! i)"
    by blast
  then have "\<exists>i < 2. resolve ?scene ?ray = color (?scene ! i)"
    by (intro exI [of _ i]) simp
  moreover have "resolve ?scene ?ray = Vector 0 1 0"
    unfolding resolve_def using far near by (simp add: CLOSEST0_def del: intersects.simps)
  ultimately show ?thesis using h by blast
qed

subsection \<open>Camera rays\<close>

text \<open>
  In both orders the direction of the camera ray is the normalized \<open>d\<close>. With the first
  argument evaluated first the origin is the camera origin plus 140 times the
  un-normalized \<open>d\<close>; with the second argument evaluated first it is the camera origin
  plus 140 times the normalized \<open>d\<close>, that is, 140 times the direction of the ray.
\<close>

lemma camera_ray_direction:
  assumes "camera_ray ord camera cx cy w h x y = Some ray"
  shows "\<exists>d. camera_d camera cx cy w h x y = Some d \<and> norm_v d = Some (direction ray)"
  using assms
  by (cases ord) (auto simp: camera_ray_def split: option.splits)

lemma camera_ray_FirstArgFirst:
  assumes "camera_ray FirstArgFirst camera cx cy w h x y = Some ray"
  shows "\<exists>d. camera_d camera cx cy w h x y = Some d
           \<and> origin ray = vadd (origin camera) (vscale d 140)
           \<and> norm_v d = Some (direction ray)"
  using assms
  by (auto simp: camera_ray_def split: option.splits)

lemma camera_ray_SecondArgFirst:
  assumes "camera_ray SecondArgFirst camera cx cy w h x y = Some ray"
  shows "\<exists>d. camera_d camera cx cy w h x y = Some d
           \<and> origin ray = vadd (origin camera) (vscale (direction ray) 140)
           \<and> norm_v d = Some (direction ray)"
  using assms
  by (auto simp: camera_ray_def split: option.splits)

text \<open>
  An example with small numbers. The camera is at \<open>(0, 0, 0)\<close> and looks along
  \<open>(0, 0, -1)\<close>, with \<open>cx = (3/2, 0, 0)\<close> and \<open>cy = (0, 3/2, 0)\<close>; the image is 2 by 2
  and the pixel is \<open>(0, 1)\<close>. Then \<open>d = (-3/4, 0, -1)\<close>, of length \<open>5/4\<close>. With the first
  argument first the origin is \<open>140 * d = (-105, 0, -140)\<close>; with the second first it
  is \<open>(-84, 0, -112)\<close>, 140 times the normalized \<open>d\<close>.
\<close>

lemma sqrt_25_16: "sqrt (25 / 16) = 5 / 4"
  by (rule real_sqrt_unique) (simp_all add: power2_eq_square)

lemma camera_d_example:
  "camera_d (Ray (Vector 0 0 0) (Vector 0 0 (- 1))) (Vector (3 / 2) 0 0) (Vector 0 (3 / 2) 0) 2 2 0 1
     = Some (Vector (- (3 / 4)) 0 (- 1))"
  by (simp add: camera_d_def)

lemma norm_v_example: "norm_v (Vector (- (3 / 4)) 0 (- 1)) = Some (Vector (- (3 / 5)) 0 (- (4 / 5)))"
proof -
  have "(- (3 / 4)) * (- (3 / 4)) + 0 * 0 + (- 1) * (- 1) = (25 / 16 :: real)" by simp
  then have "sqrt ((- (3 / 4)) * (- (3 / 4)) + 0 * 0 + (- 1) * (- 1)) = 5 / 4"
    by (simp only: sqrt_25_16)
  then show ?thesis by (simp only: norm_v.simps) simp
qed

lemma camera_ray_example:
  "camera_d (Ray (Vector 0 0 0) (Vector 0 0 (- 1))) (Vector (3 / 2) 0 0) (Vector 0 (3 / 2) 0) 2 2 0 1
     = Some (Vector (- (3 / 4)) 0 (- 1))
   \<and> vadd (Vector 0 0 0) (vscale (Vector (- (3 / 4)) 0 (- 1)) 140) = Vector (- 105) 0 (- 140)
   \<and> camera_ray SecondArgFirst (Ray (Vector 0 0 0) (Vector 0 0 (- 1)))
        (Vector (3 / 2) 0 0) (Vector 0 (3 / 2) 0) 2 2 0 1
     = Some (Ray (Vector (- 84) 0 (- 112)) (Vector (- (3 / 5)) 0 (- (4 / 5))))
   \<and> camera_ray FirstArgFirst (Ray (Vector 0 0 0) (Vector 0 0 (- 1)))
        (Vector (3 / 2) 0 0) (Vector 0 (3 / 2) 0) 2 2 0 1
     = Some (Ray (Vector (- 105) 0 (- 140)) (Vector (- (3 / 5)) 0 (- (4 / 5))))"
  by (simp add: camera_ray_def camera_d_example norm_v_example del: norm_v.simps)

text \<open>
  The two origins are the same exactly when \<open>d\<close> has length 1.
\<close>

lemma norm_v_Some:
  assumes "norm_v d = Some dn"
  shows "sqrt (dot d d) \<noteq> 0" and "dn = vscale d (1 / sqrt (dot d d))"
  using assms by (cases d; simp split: if_splits)+

lemma normalized_same_iff:
  assumes "norm_v d = Some dn"
  shows "vadd p (vscale dn k) = vadd p (vscale d k) \<longleftrightarrow> k = 0 \<or> dot d d = 1"
proof -
  obtain x y z where d: "d = Vector x y z" by (cases d)
  obtain px py pz where p: "p = Vector px py pz" by (cases p)
  define m where "m = sqrt (dot d d)"
  from norm_v_Some [OF assms] have m0: "m \<noteq> 0" and dn: "dn = vscale d (1 / m)"
    by (simp_all add: m_def)
  have m1: "m = 1 \<longleftrightarrow> dot d d = 1" by (simp add: m_def)
  have nz: "x \<noteq> 0 \<or> y \<noteq> 0 \<or> z \<noteq> 0" using m0 by (auto simp: m_def d)
  have comp: "v * (1 / m) * k = v * k \<longleftrightarrow> k = 0 \<or> v = 0 \<or> m = 1" for v
    using m0 by (auto simp: field_simps)
  have "vadd p (vscale dn k) = vadd p (vscale d k)
          \<longleftrightarrow> (x * (1 / m) * k = x * k \<and> y * (1 / m) * k = y * k \<and> z * (1 / m) * k = z * k)"
    by (simp add: d p dn)
  also have "\<dots> \<longleftrightarrow> k = 0 \<or> m = 1"
    unfolding comp using nz by auto
  finally show ?thesis by (simp add: m1)
qed

lemma camera_ray_both_orders:
  assumes "camera_d camera cx cy w h x y = Some d" and "norm_v d = Some dn"
  shows "camera_ray FirstArgFirst camera cx cy w h x y
           = Some (Ray (vadd (origin camera) (vscale d 140)) dn)"
    and "camera_ray SecondArgFirst camera cx cy w h x y
           = Some (Ray (vadd (origin camera) (vscale dn 140)) dn)"
    and "vadd (origin camera) (vscale dn 140) = vadd (origin camera) (vscale d 140)
           \<longleftrightarrow> dot d d = 1"
  using assms normalized_same_iff [OF assms(2), of "origin camera" 140]
  by (simp_all add: camera_ray_def)

text \<open>
  The camera of \<^verbatim>\<open>main\<close>. With \<open>p = 0.042612\<close>, \<open>m = sqrt (1 + p\<^sup>2)\<close> and
  \<open>a = 0.5135\<close>, the direction is \<open>(0, -p/m, -1/m)\<close>, \<open>cx = (a, 0, 0)\<close> and
  \<open>cy = (0, a/m, -ap/m)\<close>. The three vectors are orthogonal, so for the pixel \<open>(x, y)\<close>
  the squared length of \<open>d\<close> is \<open>1 + a\<^sup>2 ((x/256 - 1/2)\<^sup>2 + (y/256 - 1/2)\<^sup>2)\<close>, which is 1
  at the pixel \<open>(128, 128)\<close> only.
\<close>

lemma norm_v_nonzero:
  assumes "m = sqrt (x * x + y * y + z * z)" and "m \<noteq> 0"
  shows "norm_v (Vector x y z) = Some (Vector (x * (1 / m)) (y * (1 / m)) (z * (1 / m)))"
  using assms by simp

lemma main_camera_setup:
  fixes a p m :: real
  defines "a \<equiv> 0.5135" and "p \<equiv> 0.042612"
  defines "m \<equiv> sqrt (1 + p * p)"
  shows "main_camera = Some (Ray (Vector 50 52 295.6) (Vector 0 (- p / m) (- 1 / m)))"
    and "main_cx = Vector a 0 0"
    and "main_cy = Some (Vector 0 (a / m) (- (a * p / m)))"
    and "m * m = 1 + p * p" and "0 < m" and "0 < a"
proof -
  show apos: "0 < a" by (simp add: a_def)
  have pp: "0 < 1 + p * p" by (simp add: p_def)
  then show mpos: "0 < m" by (simp add: m_def)
  show mm: "m * m = 1 + p * p" using pp by (simp add: m_def)
  have e: "m = sqrt (0 * 0 + (- p) * (- p) + (- 1) * (- 1))"
    by (simp add: m_def add.commute)
  have ne: "m \<noteq> 0" using mpos by simp
  have nv: "norm_v (Vector 0 (- p) (- 1)) = Some (Vector (0 * (1 / m)) (- p * (1 / m)) (- 1 * (1 / m)))"
    using e ne by (rule norm_v_nonzero)
  have "main_camera = (case norm_v (Vector 0 (- p) (- 1)) of None \<Rightarrow> None
                       | Some dir \<Rightarrow> Some (Ray (Vector 50 52 295.6) dir))"
    by (simp only: main_camera_def p_def)
  then show cam: "main_camera = Some (Ray (Vector 50 52 295.6) (Vector 0 (- p / m) (- 1 / m)))"
    by (simp only: nv option.case) simp
  have "main_cx = Vector ((256 * a) / 256) 0 0" by (simp only: main_cx_def a_def)
  then show cx: "main_cx = Vector a 0 0" by simp
  have cr: "cross main_cx (Vector 0 (- p / m) (- 1 / m)) = Vector 0 (a / m) (- (a * p / m))"
    by (simp add: cx)
  have len: "a = sqrt (0 * 0 + (a / m) * (a / m) + (- (a * p / m)) * (- (a * p / m)))"
  proof -
    have "0 * 0 + (a / m) * (a / m) + (- (a * p / m)) * (- (a * p / m))
            = a * a * (1 + p * p) / (m * m)"
      using ne by (simp add: field_simps)
    also have "\<dots> = a * a" using pp by (simp add: mm)
    finally show ?thesis using apos by simp
  qed
  have ane: "a \<noteq> 0" using apos by simp
  have nvc: "norm_v (Vector 0 (a / m) (- (a * p / m)))
          = Some (Vector (0 * (1 / a)) (a / m * (1 / a)) (- (a * p / m) * (1 / a)))"
    using len ane by (rule norm_v_nonzero)
  have "main_cy = (case norm_v (Vector 0 (a / m) (- (a * p / m))) of None \<Rightarrow> None
                   | Some n \<Rightarrow> Some (vscale n a))"
    by (simp only: main_cy_def cam option.case Ray.sel cr a_def)
  then show "main_cy = Some (Vector 0 (a / m) (- (a * p / m)))"
    using ane by (simp only: nvc option.case) (simp add: mult.commute)
qed

lemma dot_self_Vector: "dot (Vector x y z) (Vector x y z) = x * x + y * y + z * z"
  by simp

lemma main_d:
  fixes x y :: int
  defines "sx \<equiv> real_of_int x / real_of_int 256 - 0.5"
    and "sy \<equiv> real_of_int y / real_of_int 256 - 0.5"
  shows "\<exists>camera cy d dn.
           main_camera = Some camera \<and> main_cy = Some cy
         \<and> camera_d camera main_cx cy 256 256 x y = Some d
         \<and> dot d d = 1 + 0.5135 * 0.5135 * (sx * sx + sy * sy)
         \<and> norm_v d = Some dn"
proof -
  define a p :: real where "a = 0.5135" and "p = 0.042612"
  define m where "m = sqrt (1 + p * p)"
  note cam_facts = main_camera_setup [folded a_def p_def, folded m_def]
  have mm: "m * m = 1 + p * p" and mpos: "0 < m" by (rule cam_facts)+
  have mne: "m \<noteq> 0" using mpos by simp
  let ?camera = "Ray (Vector 50 52 295.6) (Vector 0 (- p / m) (- 1 / m))"
  let ?cy = "Vector 0 (a / m) (- (a * p / m))"
  let ?d = "Vector (a * sx) ((a * sy - p) / m) (- ((p * (a * sy) + 1) / m))"
  have cam: "main_camera = Some ?camera" and cx: "main_cx = Vector a 0 0"
    and cy: "main_cy = Some ?cy"
    by (rule cam_facts)+
  have d: "camera_d ?camera main_cx ?cy 256 256 x y = Some ?d"
    using mne by (simp add: camera_d_def cx sx_def sy_def field_simps)
  have "((a * sy - p) / m) * ((a * sy - p) / m) + (- ((p * (a * sy) + 1) / m)) * (- ((p * (a * sy) + 1) / m))
          = (a * sy * (a * sy) + 1) * (1 + p * p) / (m * m)"
    using mne by (simp add: field_simps)
  also have "\<dots> = a * sy * (a * sy) + 1"
    using mne by (simp add: mm [symmetric])
  finally have yz: "((a * sy - p) / m) * ((a * sy - p) / m)
      + (- ((p * (a * sy) + 1) / m)) * (- ((p * (a * sy) + 1) / m)) = a * sy * (a * sy) + 1" .
  have len: "dot ?d ?d = 1 + a * a * (sx * sx + sy * sy)"
    unfolding dot_self_Vector using yz by (simp add: algebra_simps)
  have "0 \<le> a * a * (sx * sx + sy * sy)" by simp
  then have "0 < dot ?d ?d" unfolding len by linarith
  then have "sqrt (dot ?d ?d) \<noteq> 0" by simp
  then have "\<exists>dn. norm_v ?d = Some dn"
    unfolding dot_self_Vector by (simp only: norm_v.simps) simp
  with cam cy d len show ?thesis unfolding a_def by blast
qed

lemma main_ray_orders:
  "\<exists>camera cy d r1 r2.
     main_camera = Some camera \<and> main_cy = Some cy
   \<and> camera_d camera main_cx cy 256 256 x y = Some d
   \<and> main_ray FirstArgFirst x y = Some r1 \<and> main_ray SecondArgFirst x y = Some r2
   \<and> direction r1 = direction r2 \<and> norm_v d = Some (direction r1)
   \<and> origin r1 = vadd (origin camera) (vscale d 140)
   \<and> (origin r2 = vadd (origin camera) (vscale d 140) \<longleftrightarrow> x = 128 \<and> y = 128)"
proof -
  define sx sy where "sx = real_of_int x / real_of_int 256 - 0.5"
    and "sy = real_of_int y / real_of_int 256 - 0.5"
  from main_d [of x y] obtain camera cy d dn where
    cam: "main_camera = Some camera" and cy: "main_cy = Some cy"
    and d: "camera_d camera main_cx cy 256 256 x y = Some d"
    and len: "dot d d = 1 + 0.5135 * 0.5135 * (sx * sx + sy * sy)"
    and dn: "norm_v d = Some dn"
    unfolding sx_def sy_def by blast
  have sx0: "sx = 0 \<longleftrightarrow> x = 128" and sy0: "sy = 0 \<longleftrightarrow> y = 128"
    by (auto simp: sx_def sy_def)
  define q where "q = sx * sx + sy * sy"
  have "dot d d = 1 \<longleftrightarrow> q = 0" unfolding len q_def [symmetric] by simp
  also have "\<dots> \<longleftrightarrow> sx = 0 \<and> sy = 0" unfolding q_def by (rule sum_squares_eq_zero_iff)
  also have "\<dots> \<longleftrightarrow> x = 128 \<and> y = 128" unfolding sx0 sy0 by (rule refl)
  finally have unit: "dot d d = 1 \<longleftrightarrow> x = 128 \<and> y = 128" .
  note both = camera_ray_both_orders [OF d dn]
  have r1: "main_ray FirstArgFirst x y = Some (Ray (vadd (origin camera) (vscale d 140)) dn)"
    and r2: "main_ray SecondArgFirst x y = Some (Ray (vadd (origin camera) (vscale dn 140)) dn)"
    by (simp_all add: main_ray_def cam cy both)
  show ?thesis
    using cam cy d r1 r2 dn both(3) unit
    by (intro exI [of _ camera] exI [of _ cy] exI [of _ d]
          exI [of _ "Ray (vadd (origin camera) (vscale d 140)) dn"]
          exI [of _ "Ray (vadd (origin camera) (vscale dn 140)) dn"]) simp
qed

text \<open>
  Claim C5, at the first pixel of \<^verbatim>\<open>main\<close>. For the camera of \<^verbatim>\<open>main\<close> and the pixel
  \<open>(0, 0)\<close> both orders give a ray whose direction is the normalized \<open>d\<close>. With the first
  argument evaluated first the origin is the camera origin plus \<open>140 * d\<close>, \<open>d\<close>
  un-normalized, as the claim says. With \<^verbatim>\<open>d.norm()\<close> evaluated first it is another
  point: the camera origin plus 140 times the normalized \<open>d\<close>.
\<close>

theorem main_ray_origin_depends_on_order:
  "\<exists>camera cy d r1 r2.
     main_camera = Some camera \<and> main_cy = Some cy
   \<and> camera_d camera main_cx cy 256 256 0 0 = Some d
   \<and> main_ray FirstArgFirst 0 0 = Some r1 \<and> main_ray SecondArgFirst 0 0 = Some r2
   \<and> direction r1 = direction r2 \<and> norm_v d = Some (direction r1)
   \<and> origin r1 = vadd (origin camera) (vscale d 140)
   \<and> origin r2 \<noteq> vadd (origin camera) (vscale d 140)"
  using main_ray_orders [of 0 0] by simp

subsection \<open>Writing a pixel\<close>

lemma setPixel_index:
  fixes w h x y :: "32 word"
  assumes "x < w" and "1 \<le> y" and "y \<le> h" and "unat w * unat h < 2 ^ 32"
  shows "unat ((h - y) * w + x) = (unat h - unat y) * unat w + unat x"
    and "(unat h - unat y) * unat w + unat x < unat (w * h)"
proof -
  have X: "unat x < unat w" using assms(1) by (simp add: word_less_nat_alt)
  have Y1: "1 \<le> unat y" using assms(2) by (simp add: word_le_nat_alt)
  have Y2: "unat y \<le> unat h" using assms(3) by (simp add: word_le_nat_alt)
  have sub: "unat (h - y) = unat h - unat y" using assms(3) by (rule unat_sub)
  have "(unat h - unat y) * unat w + unat w \<le> unat h * unat w"
  proof -
    have "(unat h - unat y) + 1 \<le> unat h" using Y1 Y2 by simp
    then have "((unat h - unat y) + 1) * unat w \<le> unat h * unat w"
      by (rule mult_le_mono1)
    then show ?thesis by (simp add: algebra_simps)
  qed
  with X have bound: "(unat h - unat y) * unat w + unat x < unat w * unat h"
    by (simp add: mult.commute)
  have "unat w * unat h < 2 ^ LENGTH(32)" using assms(4) by simp
  then have prod: "unat (w * h) = unat w * unat h" by (simp only: unat_mult_lem)
  have "unat (h - y) * unat w < 2 ^ LENGTH(32)" using bound assms(4) sub by simp
  then have "unat ((h - y) * w) = unat (h - y) * unat w"
    by (simp only: unat_mult_lem)
  with sub have mul: "unat ((h - y) * w) = (unat h - unat y) * unat w"
    by simp
  have "unat ((h - y) * w) + unat x < 2 ^ LENGTH(32)" using bound assms(4) mul by simp
  then have "unat ((h - y) * w + x) = unat ((h - y) * w) + unat x"
    by (simp only: unat_add_lem)
  with mul show "unat ((h - y) * w + x) = (unat h - unat y) * unat w + unat x" by simp
  from bound prod show "(unat h - unat y) * unat w + unat x < unat (w * h)" by simp
qed

text \<open>
  On the rows \<open>1 \<le> y \<le> height\<close>, with \<open>x < width\<close>, in an image whose buffer has
  \<open>width * height\<close> elements (the product fitting in 32 bits), the storage index
  \<open>(height - y) * width + x\<close> lies in the buffer and \<^verbatim>\<open>setPixel\<close> changes that element
  and no other.
\<close>

lemma setPixel_writes_index:
  fixes img :: Image and x y :: "32 word" and v :: Vector
  defines "i \<equiv> unat ((height img - y) * width img + x)"
  assumes "x < width img" and "1 \<le> y" and "y \<le> height img"
    and "length (pixels img) = unat (width img * height img)"
    and "unat (width img) * unat (height img) < 2 ^ 32"
  shows "i = (unat (height img) - unat y) * unat (width img) + unat x
       \<and> i < length (pixels img)
       \<and> setPixel img x y v = Inr (img\<lparr>pixels := (pixels img)[i := v]\<rparr>)
       \<and> (pixels img)[i := v] ! i = v
       \<and> (\<forall>j. j \<noteq> i \<longrightarrow> (pixels img)[i := v] ! j = pixels img ! j)"
proof -
  from setPixel_index [OF assms(2,3,4,6)]
  have idx: "i = (unat (height img) - unat y) * unat (width img) + unat x"
    and inb: "i < length (pixels img)"
    using assms(5) by (simp_all add: i_def)
  have "setPixel img x y v = Inr (img\<lparr>pixels := (pixels img)[i := v]\<rparr>)"
    using inb by (simp add: setPixel_def Let_def i_def)
  with idx inb show ?thesis by simp
qed

text \<open>
  Claim C6, at the second write of the render loop. In the 256 by 256 image of
  \<^verbatim>\<open>main\<close> the pixel \<open>(1, 0)\<close> has storage index \<open>(256 - 0) * 256 + 1 = 65537\<close>, and the
  buffer has the 65536 elements 0 to 65535. No element of the buffer is the one the
  claim names: the write is out of bounds, for any color \<open>v\<close>, and changes no element of
  the image.
\<close>

theorem setPixel_row0_outside:
  "unat ((height (new_Image 256 256) - 0) * width (new_Image 256 256) + 1) = 65537
   \<and> length (pixels (new_Image 256 256)) = 65536
   \<and> setPixel (new_Image 256 256) 1 0 v = Inl OutOfBounds"
  by (simp add: setPixel_def new_Image_def)

text \<open>
  Claim C2, at the first write of the render loop. \<^verbatim>\<open>main\<close> makes a 256 by 256 image
  and its first call is \<^verbatim>\<open>setPixel(0, 0, color)\<close>. The storage index is
  \<open>(256 - 0) * 256 + 0 = 65536\<close>, one past the last element of the buffer of
  \<open>256 * 256 = 65536\<close> elements, for any color \<open>v\<close>.
\<close>

theorem setPixel_first_write_out_of_bounds:
  "unat ((height (new_Image 256 256) - 0) * width (new_Image 256 256) + 0) = 65536
   \<and> length (pixels (new_Image 256 256)) = 65536
   \<and> setPixel (new_Image 256 256) 0 0 v = Inl OutOfBounds"
  by (simp add: setPixel_def new_Image_def)

text \<open>
  The same holds on all of row \<open>y = 0\<close>, for every image size: the index is
  \<open>height * width + x\<close>, at or past the end of the buffer.
\<close>

lemma setPixel_y0_OutOfBounds:
  assumes "length (pixels img) = unat (width img * height img)"
    and "unat (height img) * unat (width img) + unat x < 2 ^ 32"
  shows "setPixel img x 0 v = Inl OutOfBounds"
proof -
  have hw: "unat (height img) * unat (width img) < 2 ^ LENGTH(32)" using assms(2) by simp
  then have mul: "unat (height img * width img) = unat (height img) * unat (width img)"
    by (simp only: unat_mult_lem)
  have "unat (height img * width img) + unat x < 2 ^ LENGTH(32)" using assms(2) mul by simp
  then have "unat (height img * width img + x) = unat (height img * width img) + unat x"
    by (simp only: unat_add_lem)
  with mul assms(1) show ?thesis
    by (simp add: setPixel_def Let_def mult.commute)
qed

subsection \<open>Writing and reading back\<close>

lemma of_char_digit: "d < 10 \<Longrightarrow> (of_char (digit d) :: nat) = 48 + d"
  by (simp add: digit_def)

lemma is_digit_digit: "d < 10 \<Longrightarrow> is_digit (digit d)"
  by (simp add: is_digit_def of_char_digit)

lemma is_digit_not_space: "is_digit c \<Longrightarrow> \<not> is_space c"
  by (auto simp: is_digit_def is_space_def)

lemma show_nat_nonempty: "show_nat n \<noteq> []"
  by (subst show_nat.simps) simp

lemma show_nat_digits: "list_all is_digit (show_nat n)"
proof (induction n rule: show_nat.induct)
  case (1 n)
  show ?case
  proof (cases "n < 10")
    case True
    then show ?thesis by (subst show_nat.simps) (simp add: is_digit_digit)
  next
    case False
    with "1" show ?thesis by (subst show_nat.simps) (simp add: is_digit_digit)
  qed
qed

lemma show_nat_value: "foldl (\<lambda>a c. 10 * a + (of_char c - 48)) 0 (show_nat n) = n"
proof (induction n rule: show_nat.induct)
  case (1 n)
  show ?case
  proof (cases "n < 10")
    case True
    then show ?thesis by (subst show_nat.simps) (simp add: of_char_digit)
  next
    case False
    with "1" show ?thesis by (subst show_nat.simps) (simp add: of_char_digit)
  qed
qed

lemma read_nat_show_nat: "read_nat (show_nat n) = Some n"
  by (simp add: read_nat_def show_nat_nonempty show_nat_digits show_nat_value)

lemma tokens_word:
  assumes "w \<noteq> []" and "\<forall>c \<in> set w. \<not> is_space c" and "is_space sep"
  shows "tokens (w @ sep # rest) = w # tokens rest"
proof -
  from assms(1) obtain c cs where w: "w = c # cs" by (cases w) auto
  have tw: "takeWhile (\<lambda>k. \<not> is_space k) (w @ sep # rest) = w"
    using assms(2,3) by simp
  have dw: "dropWhile (\<lambda>k. \<not> is_space k) (w @ sep # rest) = sep # rest"
    using assms(2,3) by simp
  have "tokens (w @ sep # rest) =
          takeWhile (\<lambda>k. \<not> is_space k) (w @ sep # rest)
          # tokens (dropWhile (\<lambda>k. \<not> is_space k) (w @ sep # rest))"
    using assms(2) by (simp add: w)
  with tw dw assms(3) show ?thesis by simp
qed

lemma tokens_show_nat:
  "is_space sep \<Longrightarrow> tokens (show_nat n @ sep # rest) = show_nat n # tokens rest"
  using show_nat_digits [of n]
  by (intro tokens_word) (auto simp: show_nat_nonempty list_all_iff is_digit_not_space)

text \<open>Rounding to double precision.\<close>

lemma round_even_of_int: "round_even (of_int n) = n"
  by (simp add: round_even_def)

lemma round_even_le: "r \<le> of_int n \<Longrightarrow> round_even r \<le> n"
proof -
  assume le: "r \<le> of_int n"
  then have f: "\<lfloor>r\<rfloor> \<le> n" by (simp add: floor_le_iff)
  show ?thesis
  proof (cases "r = of_int \<lfloor>r\<rfloor>")
    case True
    then have "round_even r = \<lfloor>r\<rfloor>" by (simp add: round_even_def)
    with f show ?thesis by simp
  next
    case False
    then have "of_int \<lfloor>r\<rfloor> < r" using of_int_floor_le [of r] by linarith
    with le have "of_int \<lfloor>r\<rfloor> < (of_int n :: real)" by linarith
    then have "\<lfloor>r\<rfloor> + 1 \<le> n" by simp
    with f show ?thesis by (simp add: round_even_def)
  qed
qed

lemma round_even_ge: "of_int n \<le> r \<Longrightarrow> n \<le> round_even r"
proof -
  assume "of_int n \<le> r"
  then have "n \<le> \<lfloor>r\<rfloor>" by (simp add: le_floor_iff)
  then show ?thesis by (simp add: round_even_def)
qed

lemma double_exponent_eq:
  assumes "0 < x" and "2 powi k \<le> x" and "x < 2 powi (k + 1)" and "- 1022 \<le> k"
  shows "double_exponent x = k"
proof -
  have lo: "2 powr (of_int k) = (2 powi k :: real)"
    and hi: "2 powr (of_int k + 1) = (2 powi (k + 1) :: real)"
    using powr_real_of_int' [of 2 k] powr_real_of_int' [of 2 "k + 1"] by simp_all
  have "\<lfloor>log 2 x\<rfloor> = k"
    using assms(1,2,3) by (simp add: floor_log_eq_powr_iff lo hi)
  with assms(1,4) show ?thesis by (simp add: double_exponent_def)
qed

lemma round_double_255: "round_double 255 = 255"
proof -
  have e: "double_exponent 255 = 7"
    by (rule double_exponent_eq) simp_all
  have "(255 :: real) / 2 powi (7 - 52) = of_int (255 * 2 ^ 45)"
    by (simp add: power_int_minus field_simps)
  then have "round_even (255 / 2 powi (7 - 52)) = 255 * 2 ^ 45"
    by (simp only: round_even_of_int)
  then show ?thesis
    by (simp add: round_double_def e power_int_minus)
qed


lemma round_double_0: "round_double 0 = 0"
  by (simp add: round_double_def)

lemma round_double_nonneg: "0 \<le> x \<Longrightarrow> 0 \<le> round_double x"
proof -
  assume x: "0 \<le> x"
  let ?q = "2 powi (double_exponent x - 52) :: real"
  have q: "0 < ?q" by simp
  with x have "of_int 0 \<le> x / ?q" by simp
  then have "0 \<le> round_even (x / ?q)" by (rule round_even_ge)
  with q show ?thesis by (simp add: round_double_def)
qed

lemma double_exponent_le:
  assumes "0 < x" and "x < 2 powi (k + 1)" and "- 1022 \<le> k"
  shows "double_exponent x \<le> k"
proof -
  have hi: "2 powr (of_int (k + 1)) = (2 powi (k + 1) :: real)"
    using powr_real_of_int' [of 2 "k + 1"] by simp
  have "log 2 x < of_int (k + 1)"
    using assms(1,2) by (simp only: log_less_iff hi) 
  then have "\<lfloor>log 2 x\<rfloor> < k + 1" by (simp only: floor_less_iff)
  with assms(1,3) show ?thesis by (simp add: double_exponent_def)
qed

lemma round_double_le_255: "x \<le> 255 \<Longrightarrow> round_double x \<le> 255"
proof (cases "0 < x")
  case False
  assume "x \<le> 255"
  show ?thesis
  proof (cases "x = 0")
    case True
    then show ?thesis by (simp add: round_double_0)
  next
    case neg: False
    let ?q = "2 powi (double_exponent x - 52) :: real"
    have q: "0 < ?q" by simp
    from False neg have "x / ?q \<le> of_int 0" using q by (simp add: divide_le_0_iff)
    then have "round_even (x / ?q) \<le> 0" by (rule round_even_le)
    then have "of_int (round_even (x / ?q)) * ?q \<le> 0"
      using q by (simp add: mult_le_0_iff)
    then show ?thesis using neg by (simp add: round_double_def)
  qed
next
  case True
  assume le: "x \<le> 255"
  define e where "e = double_exponent x"
  let ?q = "2 powi (e - 52) :: real"
  have q: "0 < ?q" by simp
  have "x < 2 powi (7 + 1)" using le by simp
  with True have e7: "e \<le> 7" unfolding e_def by (intro double_exponent_le) simp_all
  define M :: int where "M = 255 * 2 ^ nat (52 - e)"
  have "(2 :: real) powi (52 - e) = 2 ^ nat (52 - e)"
    using e7 by (simp add: power_int_def)
  then have M: "of_int M = 255 / ?q"
    by (simp add: M_def power_int_diff)
  have "x / ?q \<le> 255 / ?q" using le q by (simp add: divide_right_mono)
  then have "x / ?q \<le> of_int M" by (simp only: M)
  then have "round_even (x / ?q) \<le> M" by (rule round_even_le)
  then have "of_int (round_even (x / ?q)) * ?q \<le> of_int M * ?q"
    using q by (simp add: mult_right_mono)
  also have "\<dots> = 255" using q by (simp add: M)
  finally show ?thesis using True by (simp add: round_double_def e_def)
qed

text \<open>
  The rounding matters. The double nearest to \<open>128 / 255\<close> is
  \<open>282578800148737 / 2\<^sup>4\<^sup>9\<close>, a little below \<open>128 / 255\<close>. Its exact product with 255 is
  \<open>128 - 2\<^sup>-\<^sup>4\<^sup>9\<close>, which truncates to 127; the double-precision product is 128.
\<close>

lemma round_double_near_128:
  "round_double (282578800148737 / 2 ^ 49 * 255) = 128"
  and "\<lfloor>282578800148737 / 2 ^ 49 * 255 :: real\<rfloor> = 127"
proof -
  let ?y = "282578800148737 / 2 ^ 49 * 255 :: real"
  show "\<lfloor>?y\<rfloor> = 127" by (simp add: floor_eq_iff)
  have e: "double_exponent ?y = 6"
    by (rule double_exponent_eq) simp_all
  have r: "?y / 2 powi (6 - 52) = 9007199254740991 + 7 / 8"
    by (simp add: power_int_minus field_simps)
  have fl: "\<lfloor>9007199254740991 + 7 / 8 :: real\<rfloor> = 9007199254740991"
    by (simp add: floor_eq_iff)
  have "round_even (9007199254740991 + 7 / 8) = 9007199254740992"
    unfolding round_even_def fl by simp
  then show "round_double ?y = 128"
    unfolding round_double_def e r by (simp add: power_int_minus)
qed

lemma to_uint_unit:
  "0 \<le> v \<Longrightarrow> v \<le> 1 \<Longrightarrow>
     to_uint (round_double (v * 255)) = Inr (nat \<lfloor>round_double (v * 255)\<rfloor>)"
proof -
  assume "0 \<le> v" "v \<le> 1"
  then have "0 \<le> v * 255" and "v * 255 \<le> 255" by auto
  then have "0 \<le> round_double (v * 255)" and "round_double (v * 255) \<le> 255"
    by (simp_all only: round_double_nonneg round_double_le_255)
  then have "- 1 < round_double (v * 255) \<and> round_double (v * 255) < 2 ^ 32" by simp
  then show ?thesis by (simp add: to_uint_def)
qed

lemma pixel_line_unit: "unit_range p \<Longrightarrow> pixel_line p = Inr (line_of (quantize p))"
  by (simp add: pixel_line_def unit_range_def quantize_def to_uint_unit)

lemma quantize_le: "unit_range p \<Longrightarrow> quantize p = (r, g, b) \<Longrightarrow> r \<le> 255 \<and> g \<le> 255 \<and> b \<le> 255"
proof -
  have *: "nat \<lfloor>round_double (v * 255)\<rfloor> \<le> 255" if "0 \<le> v" "v \<le> 1" for v :: real
  proof -
    from that have "v * 255 \<le> 255" by simp
    then have "round_double (v * 255) < 256"
      using round_double_le_255 [of "v * 255"] by simp
    then have "\<lfloor>round_double (v * 255)\<rfloor> < 256" by (simp add: floor_less_iff)
    then show ?thesis by linarith
  qed
  assume "unit_range p" "quantize p = (r, g, b)"
  then show ?thesis by (auto simp: unit_range_def quantize_def *)
qed

lemma save_loop_unit:
  assumes len: "length (pixels img) = unat (width img * height img)"
    and small: "unat (width img * height img) < 2 ^ 31"
    and unit: "\<forall>p \<in> set (pixels img). unit_range p"
  shows "i \<le> length (pixels img) \<Longrightarrow>
           save_loop img i = Inr (concat (map line_of (map quantize (drop i (pixels img)))))"
proof (induction "length (pixels img) - i" arbitrary: i)
  case 0
  then have "i = length (pixels img)" by simp
  then show ?case using len by (subst save_loop.simps) simp
next
  case (Suc k)
  then have i: "i < length (pixels img)" by simp
  then have u: "unit_range (pixels img ! i)" using unit by simp
  have next_i: "save_loop img (i + 1) =
      Inr (concat (map line_of (map quantize (drop (i + 1) (pixels img)))))"
    using Suc.hyps(1) [of "i + 1"] Suc.hyps(2) i by simp
  have d: "drop i (pixels img) = pixels img ! i # drop (i + 1) (pixels img)"
    using i by (simp add: Cons_nth_drop_Suc)
  have "\<not> (2 ^ 31 \<le> i + 1)" using i len small by simp
  with i len next_i show ?case
    by (subst save_loop.simps, subst d) (simp add: pixel_line_unit [OF u])
qed

lemma tokens_line_of: "tokens (line_of t @ rest) = (case t of (r, g, b) \<Rightarrow> [show_nat r, show_nat g, show_nat b]) @ tokens rest"
  by (cases t) (simp add: tokens_show_nat is_space_def endl_def)

lemma tokens_body:
  "tokens (concat (map line_of ts)) = concat (map (\<lambda>(r, g, b). [show_nat r, show_nat g, show_nat b]) ts)"
  by (induction ts) (simp_all add: tokens_line_of split: prod.splits)

lemma read_all_body:
  "read_all (concat (map (\<lambda>(r, g, b). [show_nat r, show_nat g, show_nat b]) ts))
     = Some (concat (map (\<lambda>(r, g, b). [r, g, b]) ts))"
  by (induction ts) (auto simp: read_nat_show_nat)

lemma triples_body: "triples (concat (map (\<lambda>(r, g, b). [r, g, b]) ts)) = Some ts"
  by (induction ts) auto

lemma tokens_header:
  "tokens (''P3 '' @ show_nat w @ '' '' @ show_nat h @ '' '' @ show_nat m @ endl @ body)
     = ''P3'' # show_nat w # show_nat h # show_nat m # tokens body"
  by (simp add: tokens_show_nat is_space_def endl_def)

lemma parse_ppm_save_text:
  "length ts = w * h \<Longrightarrow>
   parse_ppm (''P3 '' @ show_nat w @ '' '' @ show_nat h @ '' '' @ show_nat m @ endl
              @ concat (map line_of ts))
     = Some \<lparr>ppm_width = w, ppm_height = h, ppm_max = m, ppm_pixels = ts\<rparr>"
  unfolding parse_ppm_def tokens_header
  by (simp add: read_nat_show_nat tokens_body read_all_body triples_body)

lemma quantize_red: "quantize (Vector 1 0 0) = (255, 0, 0)"
  by (simp add: quantize_def round_double_255 round_double_0)

lemma digit_chars:
  "digit 0 = CHR ''0''" "digit (Suc 0) = CHR ''1''" "digit 2 = CHR ''2''" "digit 3 = CHR ''3''"
  "digit 4 = CHR ''4''" "digit 5 = CHR ''5''" "digit 6 = CHR ''6''" "digit 7 = CHR ''7''"
  "digit 8 = CHR ''8''" "digit 9 = CHR ''9''"
  by code_simp+

lemma show_nat_small: "show_nat 0 = ''0''" "show_nat (Suc 0) = ''1''" "show_nat 2 = ''2''"
  "show_nat 128 = ''128''" "show_nat 255 = ''255''" "show_nat 65536 = ''65536''"
  by (simp_all add: show_nat.simps digit_chars)

text \<open>
  The line written for a pixel whose red channel is the double nearest to \<open>128 / 255\<close>:
  the integer is 128, the truncation of the double-precision product, not 127.
\<close>

lemma pixel_line_near_128:
  "pixel_line (Vector (282578800148737 / 2 ^ 49) 0 0) = Inr (''128 0 0'' @ endl)"
proof -
  let ?p = "Vector (282578800148737 / 2 ^ 49) 0 0"
  have r: "round_double (vx ?p * 255) = 128"
    by (simp only: Vector.sel round_double_near_128)
  have g: "round_double (vy ?p * 255) = 0" and b: "round_double (vz ?p * 255) = 0"
    by (simp_all add: round_double_0)
  show ?thesis
    by (simp only: pixel_line_def r g b) (simp add: to_uint_def show_nat_small)
qed

text \<open>
  Claim C8, as stated, at one input. \<^verbatim>\<open>Image(65536, 65536)\<close> allocates
  \<open>65536 * 65536\<close> elements, the product taken in 32 bits: none. Every pixel of this
  image is \<open>(1, 0, 0)\<close>, there being no pixel. \<^verbatim>\<open>save\<close> writes the header alone, and
  the file does not read back: it announces 65536 by 65536 pixels and holds none.
\<close>

theorem save_size_wraps:
  "pixels (new_Image 65536 65536) = []
   \<and> save (new_Image 65536 65536) = Inr (''P3 65536 65536 255'' @ endl)
   \<and> parse_ppm (''P3 65536 65536 255'' @ endl) = None"
proof -
  have p: "pixels (new_Image 65536 65536) = []"
    by (simp add: new_Image_def)
  have s: "save (new_Image 65536 65536) = Inr (''P3 65536 65536 255'' @ endl)"
    by (simp add: save_def save_loop.simps new_Image_def show_nat_small)
  have t: "tokens (''P3 65536 65536 255'' @ endl) = [''P3'', ''65536'', ''65536'', ''255'']"
    by (simp add: is_space_def endl_def)
  have r: "read_nat ''65536'' = Some 65536" "read_nat ''255'' = Some 255"
    by (simp_all add: read_nat_def is_digit_def)
  have "parse_ppm (''P3 65536 65536 255'' @ endl) = None"
    unfolding parse_ppm_def t by (simp add: r)
  with p s show ?thesis by simp
qed

text \<open>
  Claim C8, amended: for an image whose buffer has \<open>width * height\<close> elements, with
  \<open>width * height\<close> below \<open>2\<^sup>3\<^sup>1\<close> (so that the 32-bit product does not wrap and the
  \<open>int\<close> counter of the loop does not overflow), and whose channels all lie in
  \<open>[0, 1]\<close>, \<^verbatim>\<open>save\<close> writes a file that reads back as the same width and height, the
  maximum 255, and for every pixel the three integers obtained by scaling each channel
  by 255, in double precision, and dropping the fraction. When every pixel is
  \<open>(1, 0, 0)\<close>, every pixel read back is \<open>(255, 0, 0)\<close>.
\<close>

theorem save_round_trip:
  assumes len: "length (pixels img) = unat (width img * height img)"
    and small: "unat (width img) * unat (height img) < 2 ^ 31"
    and unit: "\<forall>p \<in> set (pixels img). unit_range p"
  shows "\<exists>txt. save img = Inr txt
           \<and> parse_ppm txt = Some \<lparr>ppm_width = unat (width img), ppm_height = unat (height img),
                                   ppm_max = 255, ppm_pixels = map quantize (pixels img)\<rparr>
           \<and> (pixels img = replicate (unat (width img * height img)) (Vector 1 0 0) \<longrightarrow>
                parse_ppm txt = Some \<lparr>ppm_width = unat (width img), ppm_height = unat (height img),
                  ppm_max = 255,
                  ppm_pixels = replicate (unat (width img) * unat (height img)) (255, 0, 0)\<rparr>)"
proof -
  have "unat (width img) * unat (height img) < 2 ^ LENGTH(32)"
    using small by simp
  then have prod: "unat (width img * height img) = unat (width img) * unat (height img)"
    by (simp only: unat_mult_lem)
  have small': "unat (width img * height img) < 2 ^ 31"
    using small prod by simp
  have body: "save_loop img 0 = Inr (concat (map line_of (map quantize (pixels img))))"
    using save_loop_unit [OF len small' unit, of 0] by simp
  let ?txt = "''P3 '' @ show_nat (unat (width img)) @ '' '' @ show_nat (unat (height img))
               @ '' '' @ show_nat 255 @ endl @ concat (map line_of (map quantize (pixels img)))"
  have s: "save img = Inr ?txt"
    by (simp add: save_def body)
  have p: "parse_ppm ?txt = Some \<lparr>ppm_width = unat (width img), ppm_height = unat (height img),
                                   ppm_max = 255, ppm_pixels = map quantize (pixels img)\<rparr>"
    by (rule parse_ppm_save_text) (simp add: len prod)
  have red: "map quantize (pixels img) = replicate (unat (width img) * unat (height img)) (255, 0, 0)"
    if "pixels img = replicate (unat (width img * height img)) (Vector 1 0 0)"
    by (subst that) (simp add: quantize_red prod)
  show ?thesis
  proof (intro exI [of _ ?txt] conjI impI)
    show "save img = Inr ?txt" by (rule s)
    show "parse_ppm ?txt = Some \<lparr>ppm_width = unat (width img), ppm_height = unat (height img),
                                   ppm_max = 255, ppm_pixels = map quantize (pixels img)\<rparr>"
      by (rule p)
    assume "pixels img = replicate (unat (width img * height img)) (Vector 1 0 0)"
    from red [OF this] show "parse_ppm ?txt = Some \<lparr>ppm_width = unat (width img),
        ppm_height = unat (height img), ppm_max = 255,
        ppm_pixels = replicate (unat (width img) * unat (height img)) (255, 0, 0)\<rparr>"
      using p by (simp only:)
  qed
qed

theorem save_round_trip_witness:
  "length (pixels \<lparr>width = 2, height = 1, pixels = [Vector 1 0 0, Vector 1 0 0]\<rparr>)
     = unat (width \<lparr>width = 2, height = 1, pixels = [Vector 1 0 0, Vector 1 0 0]\<rparr>
             * height \<lparr>width = 2, height = 1, pixels = [Vector 1 0 0, Vector 1 0 0]\<rparr>)
   \<and> unit_range (Vector 1 0 0)
   \<and> save \<lparr>width = 2, height = 1, pixels = [Vector 1 0 0, Vector 1 0 0]\<rparr>
       = Inr (''P3 2 1 255'' @ endl @ ''255 0 0'' @ endl @ ''255 0 0'' @ endl)
   \<and> parse_ppm (''P3 2 1 255'' @ endl @ ''255 0 0'' @ endl @ ''255 0 0'' @ endl)
       = Some \<lparr>ppm_width = 2, ppm_height = 1, ppm_max = 255,
                ppm_pixels = [(255, 0, 0), (255, 0, 0)]\<rparr>"
proof -
  let ?img = "\<lparr>width = 2, height = 1, pixels = [Vector 1 0 0, Vector 1 0 0]\<rparr>"
  have len: "length (pixels ?img) = unat (width ?img * height ?img)" by simp
  have small: "unat (width ?img) * unat (height ?img) < 2 ^ 31" by simp
  have unit: "\<forall>p \<in> set (pixels ?img). unit_range p" by (simp add: unit_range_def)
  have written: "save ?img = Inr (''P3 2 1 255'' @ endl @ ''255 0 0'' @ endl @ ''255 0 0'' @ endl)"
    by (simp add: save_def save_loop.simps pixel_line_def to_uint_def show_nat_small
          round_double_255 round_double_0)
  from save_round_trip [OF len small unit] written
  have "parse_ppm (''P3 2 1 255'' @ endl @ ''255 0 0'' @ endl @ ''255 0 0'' @ endl)
       = Some \<lparr>ppm_width = 2, ppm_height = 1, ppm_max = 255,
                ppm_pixels = [(255, 0, 0), (255, 0, 0)]\<rparr>"
    by (auto simp: quantize_red)
  with len unit written show ?thesis by simp
qed

end
